theory Spec2Isabelle
  imports Main "HOL-Library.AList" "HOL-Library.Word"
begin

section \<open>Data model of dbpool.go\<close>

text \<open>
  Times and durations are nanosecond counts of type \<^verbatim>\<open>int64\<close> in the source
  (\<^verbatim>\<open>time.Duration\<close>, and the result of \<^verbatim>\<open>UnixNano()\<close>). They are 64-bit words
  here: \<open>+\<close> wraps around as Go's addition does, \<open>sint\<close> reads a word as the signed number
  it stands for, and \<open><s\<close> and \<open>\<le>s\<close> are the signed comparisons the source makes. The value
  \<^verbatim>\<open>time.Now().Add(d).UnixNano()\<close> is the clock reading plus \<open>d\<close> in this arithmetic: a
  sum beyond the largest \<^verbatim>\<open>int64\<close> (a date after the year 2262) comes out negative.

  The handle \<^verbatim>\<open>*sqlx.DB\<close> is external to the package. Its only use in the source is
  the call \<^verbatim>\<open>Db.Close()\<close>, so a handle is a value of an arbitrary type \<open>'h\<close>, standing
  for a non-nil pointer.
\<close>

type_synonym int64 = "64 word"

record 'h PoolItem =
  Expiration :: int64
  Duration :: int64
  Created :: int64
  Db :: 'h

text \<open>
  The Go map \<^verbatim>\<open>map[string]PoolItem\<close> is an association list. The order of the list is
  the order in which \<^verbatim>\<open>range\<close> visits the keys; Go leaves that order unspecified, and
  every theorem below holds for every order. A Go map has one entry per key: this is
  the invariant \<open>unique_keys\<close> below, established by \<open>New\<close> and kept by every operation.
\<close>

record 'h SafeDbMapCache =
  pool :: "(string \<times> 'h PoolItem) list"
  defaultExpiration :: int64
  cleanupInterval :: int64

text \<open>
  The effects on the external collaborators: the handles on which \<^verbatim>\<open>Close()\<close> has been
  invoked, in order (one element per invocation), and the messages passed to
  \<^verbatim>\<open>Logger.Warningf\<close>, in order.
\<close>

record 'h world =
  closeCalls :: "'h list"
  warnings :: "string list"

type_synonym 'h state = "'h SafeDbMapCache \<times> 'h world"

definition unique_keys :: "'h SafeDbMapCache \<Rightarrow> bool" where
  "unique_keys c = distinct (map fst (pool c))"

section \<open>External collaborators\<close>

text \<open>
  \<^verbatim>\<open>Db.Close()\<close> returns \<^verbatim>\<open>nil\<close> or an error. What it returns for a handle is given
  by the parameter \<open>cl\<close> of the operations that close handles (\<open>None\<close> is \<^verbatim>\<open>nil\<close>,
  \<open>Some e\<close> an error whose \<^verbatim>\<open>Error()\<close> text is \<open>e\<close>); the call itself is recorded.
\<close>

definition DbClose :: "('h \<Rightarrow> string option) \<Rightarrow> 'h \<Rightarrow> 'h world \<Rightarrow> string option \<times> 'h world" where
  "DbClose cl h w = (cl h, w\<lparr>closeCalls := closeCalls w @ [h]\<rparr>)"

definition Warningf :: "string \<Rightarrow> 'h world \<Rightarrow> 'h world" where
  "Warningf msg w = w\<lparr>warnings := warnings w @ [msg]\<rparr>"

text \<open>
  The fragment shared by \<^verbatim>\<open>Delete\<close>, \<^verbatim>\<open>clearItems\<close> and \<^verbatim>\<open>ClearAll\<close>:
  \<^verbatim>\<open>err := connector.Db.Close(); if err != nil { Logger.Warningf("db connection close error: %s", err.Error()) }\<close>
\<close>

definition closeLogged :: "('h \<Rightarrow> string option) \<Rightarrow> 'h \<Rightarrow> 'h world \<Rightarrow> 'h world" where
  "closeLogged cl h w =
     (case DbClose cl h w of
        (None, w1) \<Rightarrow> w1
      | (Some e, w1) \<Rightarrow> Warningf (''db connection close error: '' @ e) w1)"

section \<open>The operations\<close>

text \<open>
  Every method runs under the cache's lock, so its body is one atomic step on the state.
  The readings of \<^verbatim>\<open>time.Now()\<close> are parameters, one per call site.
\<close>

text \<open>\<^verbatim>\<open>New\<close>: the empty cache, and whether \<^verbatim>\<open>StartGC\<close> was called.\<close>

definition New :: "int64 \<Rightarrow> int64 \<Rightarrow> 'h SafeDbMapCache \<times> bool" where
  "New defaultExp cleanupInt =
     (\<lparr>pool = [], defaultExpiration = defaultExp, cleanupInterval = cleanupInt\<rparr>,
      0 <s cleanupInt)"

text \<open>
  \<^verbatim>\<open>Set\<close>: \<open>tExp\<close> is the reading at line 58 (taken only when the duration is positive),
  \<open>tCreated\<close> the reading at line 69.
\<close>

fun Set :: "int64 \<Rightarrow> int64 \<Rightarrow> string \<Rightarrow> 'h \<Rightarrow> int64 \<Rightarrow> 'h state \<Rightarrow> 'h state" where
  "Set tExp tCreated key db duration (c, w) =
     (let duration1 = (if duration = 0 then defaultExpiration c else duration);
          expiration = (if 0 <s duration1 then tExp + duration1 else 0)
      in (c\<lparr>pool := AList.update key
                \<lparr>Expiration = expiration, Duration = duration1, Created = tCreated, Db = db\<rparr>
                (pool c)\<rparr>, w))"

text \<open>
  \<^verbatim>\<open>Get\<close>: \<open>tCheck\<close> is the reading at line 88, \<open>tRefresh\<close> the one at line 96,
  \<open>tCreated\<close> the one at line 103. The result is the returned pointer (\<open>None\<close> is
  \<^verbatim>\<open>nil\<close>) and the flag.
\<close>

fun Get :: "int64 \<Rightarrow> int64 \<Rightarrow> int64 \<Rightarrow> string \<Rightarrow> 'h state \<Rightarrow> ('h option \<times> bool) \<times> 'h state" where
  "Get tCheck tRefresh tCreated key (c, w) =
     (case map_of (pool c) key of
        None \<Rightarrow> ((None, False), (c, w))
      | Some item \<Rightarrow>
          if 0 <s Expiration item \<and> Expiration item <s tCheck then ((None, False), (c, w))
          else
            let newExpiration = (if 0 <s Duration item then tRefresh + Duration item else 0)
            in ((Some (Db item), True),
                (c\<lparr>pool := AList.update key
                     \<lparr>Expiration = newExpiration, Duration = Duration item,
                      Created = tCreated, Db = Db item\<rparr>
                     (pool c)\<rparr>, w)))"

text \<open>
  \<^verbatim>\<open>Delete\<close>: the result is the returned error (\<open>None\<close> is \<^verbatim>\<open>nil\<close>, \<open>Some msg\<close> is
  \<^verbatim>\<open>errors.New(msg)\<close>).
\<close>

fun Delete :: "('h \<Rightarrow> string option) \<Rightarrow> string \<Rightarrow> 'h state \<Rightarrow> string option \<times> 'h state" where
  "Delete cl key (c, w) =
     (case map_of (pool c) key of
        None \<Rightarrow> (Some ''key not found'', (c, w))
      | Some connector \<Rightarrow>
          (None, (c\<lparr>pool := AList.delete key (pool c)\<rparr>, closeLogged cl (Db connector) w)))"

text \<open>\<^verbatim>\<open>GetItems\<close>: the keys in the order \<^verbatim>\<open>range\<close> visits them.\<close>

fun GetItems :: "'h state \<Rightarrow> string list \<times> 'h state" where
  "GetItems (c, w) = (map fst (pool c), (c, w))"

text \<open>
  \<^verbatim>\<open>ExpiredKeys\<close>: the loop reads the clock once for every entry it visits (line 169);
  \<open>now k\<close> is the reading taken at the entry of key \<open>k\<close>.
\<close>

fun ExpiredKeys :: "(string \<Rightarrow> int64) \<Rightarrow> 'h state \<Rightarrow> string list \<times> 'h state" where
  "ExpiredKeys now (c, w) =
     (map fst (filter (\<lambda>(k, i). Expiration i <s now k \<and> 0 <s Expiration i) (pool c)), (c, w))"

text \<open>
  The loop body of \<^verbatim>\<open>clearItems\<close> (lines 183 to 192), which is also, word for word, the
  loop body of \<^verbatim>\<open>ClearAll\<close> (lines 202 to 211).
\<close>

fun evict :: "('h \<Rightarrow> string option) \<Rightarrow> string \<Rightarrow> 'h state \<Rightarrow> 'h state" where
  "evict cl k (c, w) =
     (let w1 = (case map_of (pool c) k of
                  Some connector \<Rightarrow> closeLogged cl (Db connector) w
                | None \<Rightarrow> w)
      in (c\<lparr>pool := AList.delete k (pool c)\<rparr>, w1))"

definition clearItems :: "('h \<Rightarrow> string option) \<Rightarrow> string list \<Rightarrow> 'h state \<Rightarrow> 'h state" where
  "clearItems cl keys s = fold (evict cl) keys s"

text \<open>
  \<^verbatim>\<open>ClearAll\<close> ranges over the map and deletes the key it is visiting. Go allows this:
  an entry not yet reached and not removed is still visited, so the loop visits every key
  that was in the map when it started.
\<close>

fun ClearAll :: "('h \<Rightarrow> string option) \<Rightarrow> 'h state \<Rightarrow> 'h state" where
  "ClearAll cl (c, w) = fold (evict cl) (map fst (pool c)) (c, w)"

text \<open>
  One round of the loop of \<^verbatim>\<open>GC\<close>, after the timer fired (lines 141 to 147). The test
  \<^verbatim>\<open>c.pool == nil\<close> is false in every cache made by \<^verbatim>\<open>New\<close>: no method assigns the
  field. \<open>GC_tick\<close> is the round with nothing running between the scan and the eviction;
  \<open>clearItems\<close> on its own is the eviction after anything else ran in between.
\<close>

definition GC_tick :: "('h \<Rightarrow> string option) \<Rightarrow> (string \<Rightarrow> int64) \<Rightarrow> 'h state \<Rightarrow> 'h state" where
  "GC_tick cl now s =
     (case ExpiredKeys now s of
        (keys, s1) \<Rightarrow> if length keys \<noteq> 0 then clearItems cl keys s1 else s1)"

section \<open>The locks\<close>

text \<open>
  The lock each method takes on the embedded \<^verbatim>\<open>sync.RWMutex\<close> (its first statement),
  and whether its body assigns to or deletes from \<^verbatim>\<open>c.pool\<close>.
\<close>

datatype lock_mode = RLock | Lock

datatype operation = MSet | MGet | MDelete | MGetItems | MExpiredKeys | MclearItems | MClearAll

fun lock_of :: "operation \<Rightarrow> lock_mode" where
  "lock_of MSet = Lock"
| "lock_of MGet = RLock"
| "lock_of MDelete = Lock"
| "lock_of MGetItems = RLock"
| "lock_of MExpiredKeys = RLock"
| "lock_of MclearItems = Lock"
| "lock_of MClearAll = Lock"

fun writes_pool :: "operation \<Rightarrow> bool" where
  "writes_pool MSet = True"
| "writes_pool MGet = True"
| "writes_pool MDelete = True"
| "writes_pool MGetItems = False"
| "writes_pool MExpiredKeys = False"
| "writes_pool MclearItems = True"
| "writes_pool MClearAll = True"

text \<open>
  \<^verbatim>\<open>sync.RWMutex\<close>: the lock is held by any number of readers or by one writer. \<open>held\<close>
  are the modes in which the lock is held now.
\<close>

fun may_acquire :: "lock_mode \<Rightarrow> lock_mode list \<Rightarrow> bool" where
  "may_acquire RLock held = (Lock \<notin> set held)"
| "may_acquire Lock held = (held = [])"

section \<open>Clients\<close>

text \<open>
  A caller that calls \<^verbatim>\<open>Get\<close> on one key again and again, each call with its three clock
  readings (lines 88, 96 and 103), and collects the flags returned.
\<close>

fun GetRepeatedly :: "(int64 \<times> int64 \<times> int64) list \<Rightarrow> string \<Rightarrow> 'h state \<Rightarrow> bool list \<times> 'h state" where
  "GetRepeatedly [] key s = ([], s)"
| "GetRepeatedly ((tCheck, tRefresh, tCreated) # ts) key s =
     (let r = Get tCheck tRefresh tCreated key s;
          rs = GetRepeatedly ts key (snd r)
      in (snd (fst r) # fst rs, snd rs))"

text \<open>
  The calls stay within the window, in real time: the first is checked no later than the
  instant \<open>e\<close>, and each later one no later than the previous call's refresh reading plus
  the ttl \<open>d\<close>. Instants and the ttl are mathematical integers here, so the window is the
  true one whether or not the stored sum wrapped around.
\<close>

fun within_window :: "int \<Rightarrow> int \<Rightarrow> (int64 \<times> int64 \<times> int64) list \<Rightarrow> bool" where
  "within_window d e [] = True"
| "within_window d e ((tCheck, tRefresh, tCreated) # ts) =
     (sint tCheck \<le> e \<and> within_window d (sint tRefresh + d) ts)"

section \<open>Basic facts\<close>

subsection \<open>Association lists\<close>


lemma delete_filter: "AList.delete k al = filter (\<lambda>p. fst p \<noteq> k) al"
  by (induction al) auto

lemma map_of_filter_keys:
  "map_of (filter (\<lambda>p. fst p \<notin> A) al) k = (if k \<in> A then None else map_of al k)"
  by (induction al) auto

lemma map_filter_cong_set:
  "(\<And>x. x \<in> set xs \<Longrightarrow> f x = g x) \<Longrightarrow> List.map_filter f xs = List.map_filter g xs"
  by (induction xs) (simp_all split: option.splits)

lemma present_entries:
  "\<forall>p\<in>set xs. map_of al (fst p) = Some (snd p) \<Longrightarrow>
   List.map_filter (map_of al) (map fst xs) = map snd xs"
  by (induction xs) simp_all

lemma present_entries_filter:
  "distinct (map fst al) \<Longrightarrow>
   List.map_filter (map_of al) (map fst (filter P al)) = map snd (filter P al)"
  by (rule present_entries) auto

subsection \<open>Signed 64-bit arithmetic\<close>

lemma sint_bounds64: "- (2 ^ 63) \<le> sint (a :: int64) \<and> sint a < 2 ^ 63"
  using sint_ge [of a] sint_lt [of a] by simp

lemma not_positive64: "(\<not> 0 <s (x :: int64)) = (x \<le>s 0)"
  by (simp add: word_sless_alt word_sle_eq not_less)

text \<open>
  Adding a positive ttl to a reading: the sum is the mathematical one when that fits in 64
  bits, and is negative when it does not.
\<close>

lemma add_positive64:
  fixes a b :: int64
  assumes "0 <s b"
  shows "(sint a + sint b < 2 ^ 63 \<longrightarrow> sint (a + b) = sint a + sint b)
         \<and> (2 ^ 63 \<le> sint a + sint b \<longrightarrow> sint (a + b) < 0)"
proof -
  define s where "s = sint a + sint b"
  have r: "sint (a + b) = signed_take_bit 63 s"
    by (simp add: sint_word_ariths s_def)
  have lo: "- 9223372036854775808 \<le> s" and hi: "s < 18446744073709551616"
    using assms sint_bounds64 [of a] sint_bounds64 [of b] by (simp_all add: word_sless_alt s_def)
  have 1: "sint (a + b) = s" if "s < 2 ^ 63"
  proof -
    have "signed_take_bit 63 s = s"
      using lo that by (simp add: signed_take_bit_int_eq_self)
    then show ?thesis by (simp add: r)
  qed
  have 2: "sint (a + b) < 0" if "2 ^ 63 \<le> s"
  proof -
    have "signed_take_bit 63 s \<le> s - 2 ^ Suc 63"
      using that by (rule signed_take_bit_int_less_eq)
    then have "signed_take_bit 63 s \<le> s - 18446744073709551616"
      by simp
    then show ?thesis
      using hi r by linarith
  qed
  show ?thesis
    using 1 2 by (simp add: s_def)
qed

lemma add_positive64_live:
  fixes a b :: int64
  assumes "0 <s b"
  shows "\<not> 0 <s a + b \<or> sint a + sint b \<le> sint (a + b)"
proof (cases "sint a + sint b < 2 ^ 63")
  case True
  then show ?thesis
    using add_positive64 [OF assms, of a] by simp
next
  case False
  then have "sint (a + b) < 0"
    using add_positive64 [OF assms, of a] by simp
  then show ?thesis
    by (simp add: word_sless_alt)
qed

subsection \<open>Closing a handle\<close>

lemma closeLogged_closeCalls: "closeCalls (closeLogged cl h w) = closeCalls w @ [h]"
  by (simp add: closeLogged_def DbClose_def Warningf_def split: option.splits)

lemma closeLogged_warnings:
  "warnings (closeLogged cl h w) =
     warnings w @ (case cl h of None \<Rightarrow> [] | Some e \<Rightarrow> [''db connection close error: '' @ e])"
  by (simp add: closeLogged_def DbClose_def Warningf_def split: option.splits)

lemma fold_closeLogged_closeCalls:
  "closeCalls (fold (closeLogged cl) hs w) = closeCalls w @ hs"
  by (induction hs arbitrary: w) (simp_all add: closeLogged_closeCalls)

lemma fold_closeLogged_warnings:
  "warnings (fold (closeLogged cl) hs w) =
     warnings w @ concat (map (\<lambda>h. case cl h of None \<Rightarrow> []
                                 | Some e \<Rightarrow> [''db connection close error: '' @ e]) hs)"
  by (induction hs arbitrary: w) (simp_all add: closeLogged_warnings)

subsection \<open>The branches of Set and Get\<close>

lemma Set_eq:
  "Set tExp tCreated key db duration (c, w) =
     (c\<lparr>pool := AList.update key
          \<lparr>Expiration = (if (if duration = 0 then defaultExpiration c else duration) \<le>s 0 then 0
                          else tExp + (if duration = 0 then defaultExpiration c else duration)),
           Duration = (if duration = 0 then defaultExpiration c else duration),
           Created = tCreated, Db = db\<rparr> (pool c)\<rparr>, w)"
  by (simp add: Let_def not_positive64 [symmetric])

lemma Get_absent:
  "map_of (pool c) key = None \<Longrightarrow>
   Get tCheck tRefresh tCreated key (c, w) = ((None, False), (c, w))"
  by simp

lemma Get_expired:
  "map_of (pool c) key = Some item \<Longrightarrow> 0 <s Expiration item \<Longrightarrow> Expiration item <s tCheck \<Longrightarrow>
   Get tCheck tRefresh tCreated key (c, w) = ((None, False), (c, w))"
  by simp

lemma Get_hit:
  "map_of (pool c) key = Some item \<Longrightarrow> \<not> (0 <s Expiration item \<and> Expiration item <s tCheck) \<Longrightarrow>
   Get tCheck tRefresh tCreated key (c, w) =
     ((Some (Db item), True),
      (c\<lparr>pool := AList.update key
           \<lparr>Expiration = (if 0 <s Duration item then tRefresh + Duration item else 0),
            Duration = Duration item, Created = tCreated, Db = Db item\<rparr> (pool c)\<rparr>, w))"
  by (simp add: Let_def)

subsection \<open>Eviction\<close>

lemma evict_eq:
  "evict cl k (c, w) =
     (c\<lparr>pool := filter (\<lambda>p. fst p \<noteq> k) (pool c)\<rparr>,
      fold (closeLogged cl) (map Db (List.map_filter (map_of (pool c)) [k])) w)"
  by (simp add: Let_def delete_filter split: option.splits)

lemma evict_absent:
  assumes "map_of (pool c) k = None"
  shows "evict cl k (c, w) = (c, w)"
proof -
  have "k \<notin> fst ` set (pool c)"
    using assms by (simp add: map_of_eq_None_iff)
  then have "AList.delete k (pool c) = pool c"
    by (rule delete_id)
  then show ?thesis
    using assms by simp
qed

lemma clearItems_eq:
  "distinct keys \<Longrightarrow>
   clearItems cl keys (c, w) =
     (c\<lparr>pool := filter (\<lambda>p. fst p \<notin> set keys) (pool c)\<rparr>,
      fold (closeLogged cl) (map Db (List.map_filter (map_of (pool c)) keys)) w)"
proof (induction keys arbitrary: c w)
  case Nil
  then show ?case by (simp add: clearItems_def)
next
  case (Cons k ks)
  let ?c1 = "c\<lparr>pool := filter (\<lambda>p. fst p \<noteq> k) (pool c)\<rparr>"
  let ?w1 = "fold (closeLogged cl) (map Db (List.map_filter (map_of (pool c)) [k])) w"
  have d: "distinct ks" and nk: "k \<notin> set ks"
    using Cons.prems by simp_all
  have same: "List.map_filter (map_of (pool ?c1)) ks = List.map_filter (map_of (pool c)) ks"
  proof (rule map_filter_cong_set)
    fix x assume "x \<in> set ks"
    then have "x \<noteq> k" using nk by blast
    then show "map_of (pool ?c1) x = map_of (pool c) x"
      using map_of_filter_keys [of "{k}" "pool c" x] by simp
  qed
  have "clearItems cl (k # ks) (c, w) = clearItems cl ks (evict cl k (c, w))"
    by (simp add: clearItems_def)
  also have "\<dots> = clearItems cl ks (?c1, ?w1)"
    by (simp only: evict_eq)
  also have "\<dots> = (?c1\<lparr>pool := filter (\<lambda>p. fst p \<notin> set ks) (pool ?c1)\<rparr>,
      fold (closeLogged cl) (map Db (List.map_filter (map_of (pool ?c1)) ks)) ?w1)"
    by (rule Cons.IH [OF d])
  also have "\<dots> = (c\<lparr>pool := filter (\<lambda>p. fst p \<notin> set (k # ks)) (pool c)\<rparr>,
      fold (closeLogged cl) (map Db (List.map_filter (map_of (pool c)) (k # ks))) w)"
    unfolding same
    by (auto split: option.splits intro: filter_cong)
  finally show ?case .
qed

lemma ClearAll_eq:
  assumes "unique_keys c"
  shows "ClearAll cl (c, w) = (c\<lparr>pool := []\<rparr>, fold (closeLogged cl) (map (Db \<circ> snd) (pool c)) w)"
proof -
  have d: "distinct (map fst (pool c))"
    using assms by (simp add: unique_keys_def)
  have p: "List.map_filter (map_of (pool c)) (map fst (pool c)) = map snd (pool c)"
    using present_entries_filter [OF d, of "\<lambda>_. True"] by simp
  have e: "filter (\<lambda>p. fst p \<notin> set (map fst (pool c))) (pool c) = []"
    by (simp add: filter_empty_conv)
  have "ClearAll cl (c, w) = clearItems cl (map fst (pool c)) (c, w)"
    by (simp add: clearItems_def)
  then show ?thesis
    unfolding clearItems_eq [OF d] p e by simp
qed

lemma GC_tick_clearItems:
  "GC_tick cl now s = clearItems cl (fst (ExpiredKeys now s)) s"
  by (cases s) (simp add: GC_tick_def clearItems_def)

lemma distinct_ExpiredKeys: "unique_keys (fst s) \<Longrightarrow> distinct (fst (ExpiredKeys now s))"
  by (cases s) (simp add: unique_keys_def distinct_map_filter)

subsection \<open>One entry per key\<close>

lemma unique_keys_New: "unique_keys (fst (New d i))"
  by (simp add: New_def unique_keys_def)

lemma unique_keys_Set:
  "unique_keys (fst s) \<Longrightarrow> unique_keys (fst (Set tExp tCreated key db duration s))"
  by (cases s) (simp add: unique_keys_def Let_def distinct_update)

lemma unique_keys_Get:
  "unique_keys (fst s) \<Longrightarrow> unique_keys (fst (snd (Get tCheck tRefresh tCreated key s)))"
  by (cases s) (simp add: unique_keys_def Let_def distinct_update split: option.splits)

lemma unique_keys_Delete:
  "unique_keys (fst s) \<Longrightarrow> unique_keys (fst (snd (Delete cl key s)))"
  by (cases s) (simp add: unique_keys_def distinct_delete split: option.splits)

lemma unique_keys_evict: "unique_keys (fst s) \<Longrightarrow> unique_keys (fst (evict cl k s))"
  by (cases s) (simp add: unique_keys_def distinct_delete Let_def)

lemma unique_keys_clearItems:
  "unique_keys (fst s) \<Longrightarrow> unique_keys (fst (clearItems cl keys s))"
  unfolding clearItems_def
  by (induction keys arbitrary: s) (simp_all add: unique_keys_evict)

lemma unique_keys_ClearAll: "unique_keys (fst s) \<Longrightarrow> unique_keys (fst (ClearAll cl s))"
  using unique_keys_clearItems [of s cl "map fst (pool (fst s))"]
  by (cases s) (simp add: clearItems_def)

lemma unique_keys_GC_tick: "unique_keys (fst s) \<Longrightarrow> unique_keys (fst (GC_tick cl now s))"
  by (simp add: GC_tick_clearItems unique_keys_clearItems)

subsection \<open>What Set and Get leave alone\<close>

lemma Set_world: "snd (Set tExp tCreated key db duration s) = snd s"
  by (cases s) (simp add: Let_def)

lemma Get_world: "snd (snd (Get tCheck tRefresh tCreated key s)) = snd s"
  by (cases s) (simp add: Let_def split: option.splits)

subsection \<open>Repeated calls of Get\<close>

lemma GetRepeatedly_within_window:
  "map_of (pool c) key = Some item \<Longrightarrow> 0 <s Duration item \<Longrightarrow>
   \<not> 0 <s Expiration item \<or> e \<le> sint (Expiration item) \<Longrightarrow>
   within_window (sint (Duration item)) e ts \<Longrightarrow>
   fst (GetRepeatedly ts key (c, w)) = replicate (length ts) True"
proof (induction ts arbitrary: c item e)
  case Nil
  then show ?case by simp
next
  case (Cons t ts)
  obtain tCheck tRefresh tCreated where t: "t = (tCheck, tRefresh, tCreated)"
    by (cases t) auto
  let ?item' = "\<lparr>Expiration = tRefresh + Duration item, Duration = Duration item,
                 Created = tCreated, Db = Db item\<rparr>"
  let ?c' = "c\<lparr>pool := AList.update key ?item' (pool c)\<rparr>"
  have le: "sint tCheck \<le> e"
    and rest: "within_window (sint (Duration item)) (sint tRefresh + sint (Duration item)) ts"
    using Cons.prems(4) by (simp_all add: t)
  have n: "\<not> (0 <s Expiration item \<and> Expiration item <s tCheck)"
    using Cons.prems(3) le by (auto simp add: word_sless_alt)
  have g: "Get tCheck tRefresh tCreated key (c, w) = ((Some (Db item), True), (?c', w))"
    using Get_hit [OF Cons.prems(1) n, of tRefresh tCreated w] Cons.prems(2) by simp
  have l: "map_of (pool ?c') key = Some ?item'"
    by (simp add: update_conv')
  have live: "\<not> 0 <s Expiration ?item' \<or> sint tRefresh + sint (Duration item) \<le> sint (Expiration ?item')"
    using add_positive64_live [OF Cons.prems(2), of tRefresh] by simp
  have "fst (GetRepeatedly ts key (?c', w)) = replicate (length ts) True"
    using Cons.IH [OF l _ live] Cons.prems(2) rest by simp
  then show ?case
    unfolding t by (simp add: g Let_def del: Get.simps)
qed

lemma GetRepeatedly_never_expire:
  "map_of (pool c) key = Some item \<Longrightarrow> Expiration item \<le>s 0 \<Longrightarrow> Duration item \<le>s 0 \<Longrightarrow>
   fst (GetRepeatedly ts key (c, w)) = replicate (length ts) True"
proof (induction ts arbitrary: c item)
  case Nil
  then show ?case by simp
next
  case (Cons t ts)
  obtain tCheck tRefresh tCreated where t: "t = (tCheck, tRefresh, tCreated)"
    by (cases t) auto
  let ?item' = "\<lparr>Expiration = 0, Duration = Duration item,
                 Created = tCreated, Db = Db item\<rparr>"
  let ?c' = "c\<lparr>pool := AList.update key ?item' (pool c)\<rparr>"
  have n: "\<not> (0 <s Expiration item \<and> Expiration item <s tCheck)"
    using Cons.prems(2) by (simp add: not_positive64)
  have d: "\<not> 0 <s Duration item"
    using Cons.prems(3) by (simp add: not_positive64)
  have g: "Get tCheck tRefresh tCreated key (c, w) = ((Some (Db item), True), (?c', w))"
    using Get_hit [OF Cons.prems(1) n, of tRefresh tCreated w] d by simp
  have l: "map_of (pool ?c') key = Some ?item'"
    by (simp add: update_conv')
  have "fst (GetRepeatedly ts key (?c', w)) = replicate (length ts) True"
    using Cons.IH [OF l] Cons.prems(3) by simp
  then show ?case
    unfolding t by (simp add: g Let_def del: Get.simps)
qed

section \<open>Set\<close>



text \<open>
  Beyond 64 bits the stored expiration is the wrapped sum: a ttl of the largest
  \<^verbatim>\<open>int64\<close>, set at the reading 946684800000000000, is stored with a negative expiration.
\<close>

lemma Set_wraps_around:
  "map_of (pool (fst (Set 946684800000000000 946684800000000000 ''a'' (7 :: nat)
       9223372036854775807
       (\<lparr>pool = [], defaultExpiration = 0, cleanupInterval = 0\<rparr>,
        \<lparr>closeCalls = [], warnings = []\<rparr>)))) ''a''
   = Some \<lparr>Expiration = - 8276687236854775809, Duration = 9223372036854775807,
           Created = 946684800000000000, Db = 7\<rparr>"
  by (simp add: word_sless_alt)

section \<open>Get\<close>

text \<open>
  Claim C2. When the entry of \<open>key\<close> has an expiration that is set (positive, the test of
  line 85) and that the clock has passed, \<^verbatim>\<open>Get\<close> returns \<^verbatim>\<open>(nil, false)\<close> and leaves
  the state as it was: the expired entry is still in the map, and \<^verbatim>\<open>GetItems\<close> still
  lists the key.
\<close>

theorem C2_Get_expired_stays:
  "map_of (pool c) key = Some item \<Longrightarrow> 0 <s Expiration item \<Longrightarrow> Expiration item <s tCheck \<Longrightarrow>
     Get tCheck tRefresh tCreated key (c, w) = ((None, False), (c, w))
     \<and> map_of (pool (fst (snd (Get tCheck tRefresh tCreated key (c, w))))) key = Some item
     \<and> key \<in> set (fst (GetItems (snd (Get tCheck tRefresh tCreated key (c, w)))))"
proof -
  assume a: "map_of (pool c) key = Some item" "0 <s Expiration item" "Expiration item <s tCheck"
  have g: "Get tCheck tRefresh tCreated key (c, w) = ((None, False), (c, w))"
    using a by (rule Get_expired)
  have "(key, item) \<in> set (pool c)"
    using a(1) by (rule map_of_SomeD)
  then have "key \<in> fst ` set (pool c)"
    by force
  then show ?thesis
    unfolding g using a(1) by simp
qed

theorem C2_Get_expired_stays_witness:
  "Get 151 152 153 ''a''
     (\<lparr>pool = [(''a'', \<lparr>Expiration = 150, Duration = 50, Created = 101, Db = 7 :: nat\<rparr>)],
       defaultExpiration = 50, cleanupInterval = 0\<rparr>, \<lparr>closeCalls = [], warnings = []\<rparr>)
   = ((None, False),
      (\<lparr>pool = [(''a'', \<lparr>Expiration = 150, Duration = 50, Created = 101, Db = 7\<rparr>)],
        defaultExpiration = 50, cleanupInterval = 0\<rparr>, \<lparr>closeCalls = [], warnings = []\<rparr>))
   \<and> ''a'' \<in> set (fst (GetItems (snd (Get 151 152 153 ''a''
     (\<lparr>pool = [(''a'', \<lparr>Expiration = 150, Duration = 50, Created = 101, Db = 7 :: nat\<rparr>)],
       defaultExpiration = 50, cleanupInterval = 0\<rparr>, \<lparr>closeCalls = [], warnings = []\<rparr>)))))"
  using C2_Get_expired_stays [of
      "\<lparr>pool = [(''a'', \<lparr>Expiration = 150, Duration = 50, Created = 101, Db = 7 :: nat\<rparr>)],
        defaultExpiration = 50, cleanupInterval = 0\<rparr>"
      "''a''" "\<lparr>Expiration = 150, Duration = 50, Created = 101, Db = 7 :: nat\<rparr>"
      151 152 153 "\<lparr>closeCalls = [], warnings = []\<rparr>"]
  by (simp add: word_sless_alt)

section \<open>Delete\<close>

text \<open>
  Claim C4. \<^verbatim>\<open>Delete(key)\<close> returns an error exactly when the key is absent (the error
  "key not found", the state unchanged). When the key is present it invokes \<^verbatim>\<open>Close\<close> on
  the entry's handle once, removes the mapping and returns \<^verbatim>\<open>nil\<close>, whatever \<^verbatim>\<open>Close\<close>
  returned; an error of \<^verbatim>\<open>Close\<close> only adds one warning to the log.
\<close>

theorem C4_Delete:
  "(fst (Delete cl key (c, w)) \<noteq> None \<longleftrightarrow> map_of (pool c) key = None)
   \<and> (map_of (pool c) key = None \<longrightarrow>
        Delete cl key (c, w) = (Some ''key not found'', (c, w)))
   \<and> (\<forall>item. map_of (pool c) key = Some item \<longrightarrow>
        (\<exists>c' w'. Delete cl key (c, w) = (None, (c', w'))
           \<and> closeCalls w' = closeCalls w @ [Db item]
           \<and> warnings w' = warnings w @
                (case cl (Db item) of None \<Rightarrow> []
                 | Some e \<Rightarrow> [''db connection close error: '' @ e])
           \<and> map_of (pool c') = (map_of (pool c))(key := None)
           \<and> key \<notin> set (fst (GetItems (c', w')))
           \<and> defaultExpiration c' = defaultExpiration c
           \<and> cleanupInterval c' = cleanupInterval c))"
proof -
  have 1: "fst (Delete cl key (c, w)) \<noteq> None \<longleftrightarrow> map_of (pool c) key = None"
    by (simp split: option.splits)
  have 2: "map_of (pool c) key = None \<longrightarrow>
        Delete cl key (c, w) = (Some ''key not found'', (c, w))"
    by simp
  have 3: "\<exists>c' w'. Delete cl key (c, w) = (None, (c', w'))
           \<and> closeCalls w' = closeCalls w @ [Db item]
           \<and> warnings w' = warnings w @
                (case cl (Db item) of None \<Rightarrow> []
                 | Some e \<Rightarrow> [''db connection close error: '' @ e])
           \<and> map_of (pool c') = (map_of (pool c))(key := None)
           \<and> key \<notin> set (fst (GetItems (c', w')))
           \<and> defaultExpiration c' = defaultExpiration c
           \<and> cleanupInterval c' = cleanupInterval c"
    if "map_of (pool c) key = Some item" for item
    using that
    by (simp add: closeLogged_closeCalls closeLogged_warnings delete_conv' delete_notin_dom)
  show ?thesis using 1 2 3 by blast
qed

theorem C4_Delete_witness:
  "Delete (\<lambda>h. if h = 7 then Some ''boom'' else None) ''a''
     (\<lparr>pool = [(''a'', \<lparr>Expiration = 150, Duration = 50, Created = 101, Db = 7 :: nat\<rparr>)],
       defaultExpiration = 50, cleanupInterval = 0\<rparr>, \<lparr>closeCalls = [], warnings = []\<rparr>)
   = (None, (\<lparr>pool = [], defaultExpiration = 50, cleanupInterval = 0\<rparr>,
             \<lparr>closeCalls = [7], warnings = [''db connection close error: boom'']\<rparr>))
   \<and> Delete (\<lambda>h. if h = 7 then Some ''boom'' else None) ''b''
     (\<lparr>pool = [(''a'', \<lparr>Expiration = 150, Duration = 50, Created = 101, Db = 7 :: nat\<rparr>)],
       defaultExpiration = 50, cleanupInterval = 0\<rparr>, \<lparr>closeCalls = [], warnings = []\<rparr>)
   = (Some ''key not found'',
      (\<lparr>pool = [(''a'', \<lparr>Expiration = 150, Duration = 50, Created = 101, Db = 7\<rparr>)],
        defaultExpiration = 50, cleanupInterval = 0\<rparr>, \<lparr>closeCalls = [], warnings = []\<rparr>))"
  using C4_Delete [of "\<lambda>h. if h = 7 then Some ''boom'' else None" "''a''"
      "\<lparr>pool = [(''a'', \<lparr>Expiration = 150, Duration = 50, Created = 101, Db = 7 :: nat\<rparr>)],
        defaultExpiration = 50, cleanupInterval = 0\<rparr>" "\<lparr>closeCalls = [], warnings = []\<rparr>"]
  by (simp add: closeLogged_def DbClose_def Warningf_def)

section \<open>Queries\<close>

text \<open>
  Claim C10. \<^verbatim>\<open>GetItems\<close> and \<^verbatim>\<open>ExpiredKeys\<close> return the state they were given: every
  entry, with its handle, expiration, ttl and creation time, and the record of the
  \<^verbatim>\<open>Close\<close> calls and of the log are unchanged. So does \<^verbatim>\<open>Get\<close> whenever the flag it
  returns is false.
\<close>

theorem C10_queries_pure:
  "snd (GetItems s) = s
   \<and> snd (ExpiredKeys now s) = s
   \<and> (snd (fst (Get tCheck tRefresh tCreated key s)) = False \<longrightarrow>
        snd (Get tCheck tRefresh tCreated key s) = s)"
  by (cases s) (simp add: Let_def split: option.splits)

theorem C10_queries_pure_witness:
  "snd (fst (Get 151 152 153 ''a''
     (\<lparr>pool = [(''a'', \<lparr>Expiration = 150, Duration = 50, Created = 101, Db = 7 :: nat\<rparr>)],
       defaultExpiration = 50, cleanupInterval = 0\<rparr>, \<lparr>closeCalls = [], warnings = []\<rparr>))) = False
   \<and> snd (Get 151 152 153 ''a''
     (\<lparr>pool = [(''a'', \<lparr>Expiration = 150, Duration = 50, Created = 101, Db = 7 :: nat\<rparr>)],
       defaultExpiration = 50, cleanupInterval = 0\<rparr>, \<lparr>closeCalls = [], warnings = []\<rparr>))
     = (\<lparr>pool = [(''a'', \<lparr>Expiration = 150, Duration = 50, Created = 101, Db = 7\<rparr>)],
         defaultExpiration = 50, cleanupInterval = 0\<rparr>, \<lparr>closeCalls = [], warnings = []\<rparr>)"
  using C10_queries_pure [of
      "(\<lparr>pool = [(''a'', \<lparr>Expiration = 150, Duration = 50, Created = 101, Db = 7 :: nat\<rparr>)],
         defaultExpiration = 50, cleanupInterval = 0\<rparr>, \<lparr>closeCalls = [], warnings = []\<rparr>)"
      "\<lambda>k. 0" 151 152 153 "''a''"]
  by (simp add: word_sless_alt)

section \<open>Overwriting an entry\<close>

text \<open>
  Claim C1 asks that after \<^verbatim>\<open>Set(k, v1, ttl)\<close> and \<^verbatim>\<open>Set(k, v2, ttl)\<close> a \<^verbatim>\<open>Get(k)\<close>
  return \<open>v2\<close> and that \<^verbatim>\<open>Close\<close> have been invoked once on \<open>v1\<close>. The code returns
  \<open>v2\<close> but never closes \<open>v1\<close>: \<^verbatim>\<open>Set\<close> has no \<^verbatim>\<open>Close\<close> call, while \<^verbatim>\<open>Delete\<close>,
  \<^verbatim>\<open>clearItems\<close> and \<^verbatim>\<open>ClearAll\<close> all close a handle before they drop it. Here handle 1
  is stored under \<^verbatim>\<open>"k"\<close> and overwritten by handle 2: \<^verbatim>\<open>Get\<close> returns handle 2, handle 1
  has been closed zero times, and a later \<^verbatim>\<open>ClearAll\<close> closes handle 2 only.
\<close>

theorem C1_overwrite_closes_nothing:
  "fst (Get 5 6 7 ''k'' (Set 3 4 ''k'' (2::nat) 0 (Set 1 2 ''k'' 1 0
      (\<lparr>pool = [], defaultExpiration = 0, cleanupInterval = 0\<rparr>,
       \<lparr>closeCalls = [], warnings = []\<rparr>)))) = (Some 2, True)
   \<and> count_list (closeCalls (snd (snd (Get 5 6 7 ''k'' (Set 3 4 ''k'' (2::nat) 0 (Set 1 2 ''k'' 1 0
      (\<lparr>pool = [], defaultExpiration = 0, cleanupInterval = 0\<rparr>,
       \<lparr>closeCalls = [], warnings = []\<rparr>))))))) 1 = 0
   \<and> closeCalls (snd (ClearAll (\<lambda>h. None) (Set 3 4 ''k'' (2::nat) 0 (Set 1 2 ''k'' 1 0
      (\<lparr>pool = [], defaultExpiration = 0, cleanupInterval = 0\<rparr>,
       \<lparr>closeCalls = [], warnings = []\<rparr>))))) = [2]"
  by (simp add: closeLogged_def DbClose_def word_sless_alt)

section \<open>Sliding expiration\<close>

text \<open>
  Claim C3, as the code has it. For an entry that is present and not expired at the call,
  \<^verbatim>\<open>Get\<close> returns the stored handle with the flag true and writes back the entry with the
  same handle and ttl, its creation time set to the clock reading, and its expiration set
  to the clock reading plus the stored ttl (the sum the source computes in \<^verbatim>\<open>int64\<close>) when
  that ttl is positive, and to the never-expire value 0 when the ttl is not positive (line
  95). Hence calls of \<^verbatim>\<open>Get\<close> that stay within the window of a positive ttl all return
  true, and so do all calls on an entry that never expires.
\<close>

theorem C3_Get_refreshes:
  "map_of (pool c) key = Some item \<Longrightarrow>
   (\<not> (0 <s Expiration item \<and> Expiration item <s tCheck) \<longrightarrow>
      (\<exists>c'. Get tCheck tRefresh tCreated key (c, w) = ((Some (Db item), True), (c', w))
         \<and> map_of (pool c') =
             (map_of (pool c))(key \<mapsto>
                \<lparr>Expiration = (if 0 <s Duration item then tRefresh + Duration item else 0),
                 Duration = Duration item, Created = tCreated, Db = Db item\<rparr>)
         \<and> defaultExpiration c' = defaultExpiration c
         \<and> cleanupInterval c' = cleanupInterval c))
   \<and> (0 <s Duration item
        \<and> within_window (sint (Duration item)) (sint (Expiration item)) ts \<longrightarrow>
        fst (GetRepeatedly ts key (c, w)) = replicate (length ts) True)
   \<and> (Duration item \<le>s 0 \<and> Expiration item \<le>s 0 \<longrightarrow>
        fst (GetRepeatedly ts key (c, w)) = replicate (length ts) True)"
proof -
  assume l: "map_of (pool c) key = Some item"
  have 1: "\<exists>c'. Get tCheck tRefresh tCreated key (c, w) = ((Some (Db item), True), (c', w))
         \<and> map_of (pool c') =
             (map_of (pool c))(key \<mapsto>
                \<lparr>Expiration = (if 0 <s Duration item then tRefresh + Duration item else 0),
                 Duration = Duration item, Created = tCreated, Db = Db item\<rparr>)
         \<and> defaultExpiration c' = defaultExpiration c
         \<and> cleanupInterval c' = cleanupInterval c"
    if n: "\<not> (0 <s Expiration item \<and> Expiration item <s tCheck)"
    unfolding Get_hit [OF l n] by (simp add: update_conv')
  have 2: "fst (GetRepeatedly ts key (c, w)) = replicate (length ts) True"
    if "0 <s Duration item" "within_window (sint (Duration item)) (sint (Expiration item)) ts"
    using l that(1) _ that(2) by (rule GetRepeatedly_within_window) simp
  have 3: "fst (GetRepeatedly ts key (c, w)) = replicate (length ts) True"
    if "Duration item \<le>s 0" "Expiration item \<le>s 0"
    using l that(2) that(1) by (rule GetRepeatedly_never_expire)
  show ?thesis
    using 1 2 3 by blast
qed

theorem C3_Get_refreshes_witness:
  "fst (Get 40 40 40 ''a''
     (\<lparr>pool = [(''a'', \<lparr>Expiration = 100, Duration = 100, Created = 0, Db = 7 :: nat\<rparr>)],
       defaultExpiration = 0, cleanupInterval = 0\<rparr>, \<lparr>closeCalls = [], warnings = []\<rparr>))
     = (Some 7, True)
   \<and> map_of (pool (fst (snd (Get 40 40 40 ''a''
     (\<lparr>pool = [(''a'', \<lparr>Expiration = 100, Duration = 100, Created = 0, Db = 7 :: nat\<rparr>)],
       defaultExpiration = 0, cleanupInterval = 0\<rparr>, \<lparr>closeCalls = [], warnings = []\<rparr>))))) ''a''
     = Some \<lparr>Expiration = 140, Duration = 100, Created = 40, Db = 7\<rparr>
   \<and> fst (GetRepeatedly [(40, 40, 40), (80, 80, 80), (120, 120, 120), (160, 160, 160), (200, 200, 200)]
          ''a''
     (\<lparr>pool = [(''a'', \<lparr>Expiration = 100, Duration = 100, Created = 0, Db = 7 :: nat\<rparr>)],
       defaultExpiration = 0, cleanupInterval = 0\<rparr>, \<lparr>closeCalls = [], warnings = []\<rparr>))
     = [True, True, True, True, True]"
  using C3_Get_refreshes [of
      "\<lparr>pool = [(''a'', \<lparr>Expiration = 100, Duration = 100, Created = 0, Db = 7 :: nat\<rparr>)],
        defaultExpiration = 0, cleanupInterval = 0\<rparr>"
      "''a''" "\<lparr>Expiration = 100, Duration = 100, Created = 0, Db = 7 :: nat\<rparr>"
      40 40 40 "\<lparr>closeCalls = [], warnings = []\<rparr>"
      "[(40, 40, 40), (80, 80, 80), (120, 120, 120), (160, 160, 160), (200, 200, 200)]"]
  by (simp add: word_sless_alt)

text \<open>
  The claim as stated gives every refreshed entry the expiration "now plus the stored ttl".
  An entry that never expires (expiration 0, ttl 0) read at time 10 is found, and the entry
  written back has expiration 0, not 10 + 0.
\<close>

theorem C3_counterexample:
  "fst (Get 10 10 10 ''a''
     (\<lparr>pool = [(''a'', \<lparr>Expiration = 0, Duration = 0, Created = 1, Db = 7 :: nat\<rparr>)],
       defaultExpiration = 0, cleanupInterval = 0\<rparr>, \<lparr>closeCalls = [], warnings = []\<rparr>))
     = (Some 7, True)
   \<and> map_option Expiration (map_of (pool (fst (snd (Get 10 10 10 ''a''
     (\<lparr>pool = [(''a'', \<lparr>Expiration = 0, Duration = 0, Created = 1, Db = 7 :: nat\<rparr>)],
       defaultExpiration = 0, cleanupInterval = 0\<rparr>, \<lparr>closeCalls = [], warnings = []\<rparr>))))) ''a'')
     = Some 0
   \<and> map_option Expiration (map_of (pool (fst (snd (Get 10 10 10 ''a''
     (\<lparr>pool = [(''a'', \<lparr>Expiration = 0, Duration = 0, Created = 1, Db = 7 :: nat\<rparr>)],
       defaultExpiration = 0, cleanupInterval = 0\<rparr>, \<lparr>closeCalls = [], warnings = []\<rparr>))))) ''a'')
     \<noteq> Some (10 + 0)"
  by (simp add: word_sless_alt)

section \<open>ClearAll\<close>

text \<open>
  Claim C6. In a map with one entry per key, \<^verbatim>\<open>ClearAll\<close> invokes \<^verbatim>\<open>Close\<close> once for
  every stored entry, in the order of the loop, logs one warning for every \<^verbatim>\<open>Close\<close> that
  returned an error, and leaves the map empty, so that \<^verbatim>\<open>GetItems\<close> returns the empty list.
  The cache stays usable: a following \<^verbatim>\<open>Set\<close> stores its entry, which \<^verbatim>\<open>GetItems\<close> lists
  and \<^verbatim>\<open>Get\<close> finds.
\<close>

theorem C6_ClearAll:
  "unique_keys c \<Longrightarrow>
   \<exists>c' w'. ClearAll cl (c, w) = (c', w')
     \<and> closeCalls w' = closeCalls w @ map (Db \<circ> snd) (pool c)
     \<and> warnings w' = warnings w @
          concat (map (\<lambda>h. case cl h of None \<Rightarrow> []
                           | Some e \<Rightarrow> [''db connection close error: '' @ e])
                      (map (Db \<circ> snd) (pool c)))
     \<and> pool c' = []
     \<and> fst (GetItems (c', w')) = []
     \<and> defaultExpiration c' = defaultExpiration c
     \<and> cleanupInterval c' = cleanupInterval c
     \<and> fst (GetItems (Set tExp tCreated key db duration (c', w'))) = [key]
     \<and> fst (Get tExp tExp tExp key (Set tExp tCreated key db duration (c', w'))) = (Some db, True)"
proof -
  assume u: "unique_keys c"
  let ?c' = "c\<lparr>pool := []\<rparr>"
  let ?w' = "fold (closeLogged cl) (map (Db \<circ> snd) (pool c)) w"
  let ?eff = "if duration = 0 then defaultExpiration c else duration"
  let ?item = "\<lparr>Expiration = (if ?eff \<le>s 0 then 0 else tExp + ?eff),
           Duration = ?eff, Created = tCreated, Db = db\<rparr>"
  have e: "ClearAll cl (c, w) = (?c', ?w')"
    using u by (rule ClearAll_eq)
  have s: "Set tExp tCreated key db duration (?c', ?w') = (?c'\<lparr>pool := [(key, ?item)]\<rparr>, ?w')"
    unfolding Set_eq by simp
  have l: "map_of (pool (?c'\<lparr>pool := [(key, ?item)]\<rparr>)) key = Some ?item"
    by simp
  have n: "\<not> (0 <s Expiration ?item \<and> Expiration ?item <s tExp)"
  proof (cases "?eff \<le>s 0")
    case True
    then show ?thesis by simp
  next
    case False
    then have p: "0 <s ?eff"
      by (simp add: not_positive64 [symmetric])
    have "\<not> 0 <s tExp + ?eff \<or> sint tExp + sint ?eff \<le> sint (tExp + ?eff)"
      using p by (rule add_positive64_live)
    moreover have "0 < sint ?eff"
      using p by (simp add: word_sless_alt)
    ultimately have "\<not> (0 <s tExp + ?eff \<and> tExp + ?eff <s tExp)"
      by (auto simp add: word_sless_alt)
    then show ?thesis
      using False by simp
  qed
  have g: "fst (Get tExp tExp tExp key (Set tExp tCreated key db duration (?c', ?w'))) = (Some db, True)"
    unfolding s Get_hit [OF l n] by simp
  have i: "fst (GetItems (Set tExp tCreated key db duration (?c', ?w'))) = [key]"
    unfolding s by simp
  show ?thesis
  proof (intro exI conjI)
    show "ClearAll cl (c, w) = (?c', ?w')" by (rule e)
    show "closeCalls ?w' = closeCalls w @ map (Db \<circ> snd) (pool c)"
      by (rule fold_closeLogged_closeCalls)
    show "warnings ?w' = warnings w @
          concat (map (\<lambda>h. case cl h of None \<Rightarrow> []
                           | Some e \<Rightarrow> [''db connection close error: '' @ e])
                      (map (Db \<circ> snd) (pool c)))"
      by (rule fold_closeLogged_warnings)
    show "fst (GetItems (Set tExp tCreated key db duration (?c', ?w'))) = [key]" by (rule i)
    show "fst (Get tExp tExp tExp key (Set tExp tCreated key db duration (?c', ?w'))) = (Some db, True)"
      by (rule g)
  qed simp_all
qed

theorem C6_ClearAll_witness:
  "ClearAll (\<lambda>h. if h = 8 then Some ''boom'' else None)
     (\<lparr>pool = [(''a'', \<lparr>Expiration = 150, Duration = 50, Created = 101, Db = 7 :: nat\<rparr>),
               (''b'', \<lparr>Expiration = 0, Duration = 0, Created = 102, Db = 8\<rparr>)],
       defaultExpiration = 0, cleanupInterval = 10\<rparr>, \<lparr>closeCalls = [], warnings = []\<rparr>)
   = (\<lparr>pool = [], defaultExpiration = 0, cleanupInterval = 10\<rparr>,
      \<lparr>closeCalls = [7, 8], warnings = [''db connection close error: boom'']\<rparr>)"
  using C6_ClearAll [of
      "\<lparr>pool = [(''a'', \<lparr>Expiration = 150, Duration = 50, Created = 101, Db = 7 :: nat\<rparr>),
               (''b'', \<lparr>Expiration = 0, Duration = 0, Created = 102, Db = 8\<rparr>)],
       defaultExpiration = 0, cleanupInterval = 10\<rparr>"
      "\<lambda>h. if h = 8 then Some ''boom'' else None" "\<lparr>closeCalls = [], warnings = []\<rparr>"]
  by (simp add: unique_keys_def closeLogged_def DbClose_def Warningf_def)

section \<open>Eviction by the sweeper\<close>

text \<open>
  Claim C5. \<^verbatim>\<open>clearItems\<close> is given the snapshot \<open>keys\<close> of expired keys and runs on the
  state as it is when the lock is taken, which other calls may have changed since the scan.
  Every key of the snapshot is absent afterwards and not listed by \<^verbatim>\<open>GetItems\<close>; every other
  key keeps its entry. \<^verbatim>\<open>Close\<close> is invoked once for every key of the snapshot that is
  still present, and for no other; an error of \<^verbatim>\<open>Close\<close> adds a warning and nothing else.
  When no key of the snapshot is present any more, the state is unchanged. A round of the
  sweeper on a map with one entry per key takes a snapshot without repetition, evicts it,
  and so closes the handles of exactly the entries whose expiration is set and passed.
\<close>

theorem C5_sweep_evicts:
  "distinct keys \<Longrightarrow>
   (\<exists>c' w'. clearItems cl keys (c, w) = (c', w')
      \<and> (\<forall>k\<in>set keys. map_of (pool c') k = None \<and> k \<notin> set (fst (GetItems (c', w'))))
      \<and> (\<forall>k. k \<notin> set keys \<longrightarrow> map_of (pool c') k = map_of (pool c) k)
      \<and> closeCalls w' = closeCalls w @ map Db (List.map_filter (map_of (pool c)) keys)
      \<and> warnings w' = warnings w @
           concat (map (\<lambda>h. case cl h of None \<Rightarrow> []
                            | Some e \<Rightarrow> [''db connection close error: '' @ e])
                       (map Db (List.map_filter (map_of (pool c)) keys))))
   \<and> ((\<forall>k\<in>set keys. map_of (pool c) k = None) \<longrightarrow> clearItems cl keys (c, w) = (c, w))
   \<and> (unique_keys c \<longrightarrow>
        distinct (fst (ExpiredKeys now (c, w)))
        \<and> GC_tick cl now (c, w) = clearItems cl (fst (ExpiredKeys now (c, w))) (c, w)
        \<and> closeCalls (snd (GC_tick cl now (c, w))) = closeCalls w @
             map (Db \<circ> snd) (filter (\<lambda>(k, i). Expiration i <s now k \<and> 0 <s Expiration i) (pool c)))"
proof -
  assume d: "distinct keys"
  let ?c' = "c\<lparr>pool := filter (\<lambda>p. fst p \<notin> set keys) (pool c)\<rparr>"
  let ?hs = "map Db (List.map_filter (map_of (pool c)) keys)"
  let ?w' = "fold (closeLogged cl) ?hs w"
  have e: "clearItems cl keys (c, w) = (?c', ?w')"
    using d by (rule clearItems_eq)
  have 1: "\<forall>k\<in>set keys. map_of (pool ?c') k = None \<and> k \<notin> set (fst (GetItems (?c', ?w')))"
    by (auto simp add: map_of_filter_keys)
  have 2: "\<forall>k. k \<notin> set keys \<longrightarrow> map_of (pool ?c') k = map_of (pool c) k"
    by (simp add: map_of_filter_keys)
  have A: "\<exists>c' w'. clearItems cl keys (c, w) = (c', w')
      \<and> (\<forall>k\<in>set keys. map_of (pool c') k = None \<and> k \<notin> set (fst (GetItems (c', w'))))
      \<and> (\<forall>k. k \<notin> set keys \<longrightarrow> map_of (pool c') k = map_of (pool c) k)
      \<and> closeCalls w' = closeCalls w @ ?hs
      \<and> warnings w' = warnings w @
           concat (map (\<lambda>h. case cl h of None \<Rightarrow> []
                            | Some e \<Rightarrow> [''db connection close error: '' @ e]) ?hs)"
  proof (intro exI conjI)
    show "clearItems cl keys (c, w) = (?c', ?w')" by (rule e)
    show "\<forall>k\<in>set keys. map_of (pool ?c') k = None \<and> k \<notin> set (fst (GetItems (?c', ?w')))"
      by (rule 1)
    show "\<forall>k. k \<notin> set keys \<longrightarrow> map_of (pool ?c') k = map_of (pool c) k" by (rule 2)
    show "closeCalls ?w' = closeCalls w @ ?hs" by (rule fold_closeLogged_closeCalls)
    show "warnings ?w' = warnings w @
           concat (map (\<lambda>h. case cl h of None \<Rightarrow> []
                            | Some e \<Rightarrow> [''db connection close error: '' @ e]) ?hs)"
      by (rule fold_closeLogged_warnings)
  qed
  have B: "clearItems cl keys (c, w) = (c, w)" if "\<forall>k\<in>set keys. map_of (pool c) k = None"
  proof -
    have "List.map_filter (map_of (pool c)) keys = []"
      using that by (induction keys) simp_all
    moreover have "filter (\<lambda>p. fst p \<notin> set keys) (pool c) = pool c"
      using that by (auto simp add: filter_id_conv map_of_eq_None_iff)
    ultimately show ?thesis
      unfolding e by simp
  qed
  have C: "distinct (fst (ExpiredKeys now (c, w)))
        \<and> GC_tick cl now (c, w) = clearItems cl (fst (ExpiredKeys now (c, w))) (c, w)
        \<and> closeCalls (snd (GC_tick cl now (c, w))) = closeCalls w @
             map (Db \<circ> snd) (filter (\<lambda>(k, i). Expiration i <s now k \<and> 0 <s Expiration i) (pool c))"
    if u: "unique_keys c"
  proof -
    let ?P = "\<lambda>(k, i). Expiration i <s now k \<and> 0 <s Expiration i"
    have dk: "distinct (fst (ExpiredKeys now (c, w)))"
      using distinct_ExpiredKeys [of "(c, w)" now] u by simp
    have dp: "distinct (map fst (pool c))"
      using u by (simp add: unique_keys_def)
    have k: "fst (ExpiredKeys now (c, w)) = map fst (filter ?P (pool c))"
      by simp
    have "closeCalls (snd (clearItems cl (map fst (filter ?P (pool c))) (c, w)))
            = closeCalls w @ map (Db \<circ> snd) (filter ?P (pool c))"
      using dk unfolding k
      by (simp add: clearItems_eq fold_closeLogged_closeCalls present_entries_filter [OF dp])
    then show ?thesis
      using dk unfolding GC_tick_clearItems k by simp
  qed
  show ?thesis using A B C by blast
qed

theorem C5_sweep_evicts_witness:
  "clearItems (\<lambda>h. if h = 7 then Some ''boom'' else None) [''a'', ''gone'']
     (\<lparr>pool = [(''a'', \<lparr>Expiration = 5, Duration = 5, Created = 0, Db = 7 :: nat\<rparr>),
               (''b'', \<lparr>Expiration = 0, Duration = 0, Created = 0, Db = 8\<rparr>)],
       defaultExpiration = 0, cleanupInterval = 10\<rparr>, \<lparr>closeCalls = [], warnings = []\<rparr>)
   = (\<lparr>pool = [(''b'', \<lparr>Expiration = 0, Duration = 0, Created = 0, Db = 8\<rparr>)],
       defaultExpiration = 0, cleanupInterval = 10\<rparr>,
      \<lparr>closeCalls = [7], warnings = [''db connection close error: boom'']\<rparr>)
   \<and> clearItems (\<lambda>h. if h = 7 then Some ''boom'' else None) [''gone'']
     (\<lparr>pool = [(''a'', \<lparr>Expiration = 5, Duration = 5, Created = 0, Db = 7 :: nat\<rparr>),
               (''b'', \<lparr>Expiration = 0, Duration = 0, Created = 0, Db = 8\<rparr>)],
       defaultExpiration = 0, cleanupInterval = 10\<rparr>, \<lparr>closeCalls = [], warnings = []\<rparr>)
   = (\<lparr>pool = [(''a'', \<lparr>Expiration = 5, Duration = 5, Created = 0, Db = 7 :: nat\<rparr>),
               (''b'', \<lparr>Expiration = 0, Duration = 0, Created = 0, Db = 8\<rparr>)],
       defaultExpiration = 0, cleanupInterval = 10\<rparr>, \<lparr>closeCalls = [], warnings = []\<rparr>)
   \<and> GC_tick (\<lambda>h. if h = 7 then Some ''boom'' else None) (\<lambda>k. 10)
     (\<lparr>pool = [(''a'', \<lparr>Expiration = 5, Duration = 5, Created = 0, Db = 7 :: nat\<rparr>),
               (''b'', \<lparr>Expiration = 0, Duration = 0, Created = 0, Db = 8\<rparr>)],
       defaultExpiration = 0, cleanupInterval = 10\<rparr>, \<lparr>closeCalls = [], warnings = []\<rparr>)
   = (\<lparr>pool = [(''b'', \<lparr>Expiration = 0, Duration = 0, Created = 0, Db = 8\<rparr>)],
       defaultExpiration = 0, cleanupInterval = 10\<rparr>,
      \<lparr>closeCalls = [7], warnings = [''db connection close error: boom'']\<rparr>)"
  using C5_sweep_evicts [of "[''a'', ''gone'']" "\<lambda>h. if h = 7 then Some ''boom'' else None"
      "\<lparr>pool = [(''a'', \<lparr>Expiration = 5, Duration = 5, Created = 0, Db = 7 :: nat\<rparr>),
               (''b'', \<lparr>Expiration = 0, Duration = 0, Created = 0, Db = 8\<rparr>)],
       defaultExpiration = 0, cleanupInterval = 10\<rparr>" "\<lparr>closeCalls = [], warnings = []\<rparr>"
      "\<lambda>k. 10"]
  by (simp add: clearItems_def GC_tick_def closeLogged_def DbClose_def Warningf_def word_sless_alt)

section \<open>Entries that never expire\<close>

text \<open>
  Claim C8 asks that an entry stored by \<^verbatim>\<open>Set\<close> with ttl 0 under a default of 0 be never
  evicted by the sweeper and always found by \<^verbatim>\<open>Get\<close>. \<^verbatim>\<open>ExpiredKeys\<close> does leave such an
  entry out (the test \<^verbatim>\<open>i.Expiration > 0\<close> of line 169), but a round of the sweeper scans
  and evicts under two separate locks, and \<^verbatim>\<open>clearItems\<close> does not look at the expiration
  again. Here \<^verbatim>\<open>"a"\<close> holds handle 1 with ttl 5, set at time 100; the scan at time 200
  returns \<^verbatim>\<open>"a"\<close>; before the eviction takes the lock, \<^verbatim>\<open>Set("a", 2, 0)\<close> stores handle 2
  to never expire, which no scan lists; the eviction of the snapshot closes handle 2 and
  removes the entry; \<^verbatim>\<open>Get\<close> then reports not found.
\<close>

theorem C8_stale_snapshot_evicts:
  "fst (ExpiredKeys (\<lambda>k. 200) (Set 100 100 ''a'' (1::nat) 5
      (\<lparr>pool = [], defaultExpiration = 0, cleanupInterval = 10\<rparr>,
       \<lparr>closeCalls = [], warnings = []\<rparr>))) = [''a'']
   \<and> Set 201 201 ''a'' 2 0 (Set 100 100 ''a'' (1::nat) 5
      (\<lparr>pool = [], defaultExpiration = 0, cleanupInterval = 10\<rparr>,
       \<lparr>closeCalls = [], warnings = []\<rparr>))
     = (\<lparr>pool = [(''a'', \<lparr>Expiration = 0, Duration = 0, Created = 201, Db = 2\<rparr>)],
         defaultExpiration = 0, cleanupInterval = 10\<rparr>,
        \<lparr>closeCalls = [], warnings = []\<rparr>)
   \<and> fst (ExpiredKeys (\<lambda>k. 300) (Set 201 201 ''a'' 2 0 (Set 100 100 ''a'' (1::nat) 5
      (\<lparr>pool = [], defaultExpiration = 0, cleanupInterval = 10\<rparr>,
       \<lparr>closeCalls = [], warnings = []\<rparr>)))) = []
   \<and> clearItems (\<lambda>h. None) [''a''] (Set 201 201 ''a'' 2 0 (Set 100 100 ''a'' (1::nat) 5
      (\<lparr>pool = [], defaultExpiration = 0, cleanupInterval = 10\<rparr>,
       \<lparr>closeCalls = [], warnings = []\<rparr>)))
     = (\<lparr>pool = [], defaultExpiration = 0, cleanupInterval = 10\<rparr>,
        \<lparr>closeCalls = [2], warnings = []\<rparr>)
   \<and> fst (Get 300 300 300 ''a'' (clearItems (\<lambda>h. None) [''a'']
      (Set 201 201 ''a'' 2 0 (Set 100 100 ''a'' (1::nat) 5
        (\<lparr>pool = [], defaultExpiration = 0, cleanupInterval = 10\<rparr>,
         \<lparr>closeCalls = [], warnings = []\<rparr>))))) = (None, False)"
  by (simp add: clearItems_def closeLogged_def DbClose_def word_sless_alt)

section \<open>The lock taken by Get\<close>

text \<open>
  Claim C9 asks that \<^verbatim>\<open>Get\<close> take the lock in a mode that permits its refresh write. In
  the source \<^verbatim>\<open>Get\<close> takes the read lock (line 75) and assigns to the map on a hit (line
  99): it is the one method that writes under the read lock, which a second \<^verbatim>\<open>Get\<close> or a
  \<^verbatim>\<open>GetItems\<close> can hold at the same time. Every other method that writes takes the write
  lock. The last conjunct is a hit of \<^verbatim>\<open>Get\<close> that changes the stored entry.
\<close>

theorem C9_Get_writes_under_RLock:
  "lock_of MGet = RLock
   \<and> writes_pool MGet
   \<and> may_acquire (lock_of MGet) [lock_of MGet]
   \<and> may_acquire (lock_of MGetItems) [lock_of MGet]
   \<and> lock_of MSet = Lock \<and> lock_of MDelete = Lock
   \<and> lock_of MclearItems = Lock \<and> lock_of MClearAll = Lock
   \<and> snd (Get 1 1 1 ''a''
       (\<lparr>pool = [(''a'', \<lparr>Expiration = 0, Duration = 0, Created = 0, Db = 7 :: nat\<rparr>)],
         defaultExpiration = 0, cleanupInterval = 0\<rparr>, \<lparr>closeCalls = [], warnings = []\<rparr>))
     = (\<lparr>pool = [(''a'', \<lparr>Expiration = 0, Duration = 0, Created = 1, Db = 7 :: nat\<rparr>)],
         defaultExpiration = 0, cleanupInterval = 0\<rparr>, \<lparr>closeCalls = [], warnings = []\<rparr>)"
  by (simp add: word_sless_alt)

end
